theory Spec2Isabelle
  imports Complex_Main
begin

section \<open>Projectile motion sandbox: the interaction core of \<open>projectile/main.py\<close>\<close>

text \<open>
  The development embeds the event handling of \<open>ProjectileMain\<close> (pointer mapping, hit
  test, drag release, delete, obstacle create/remove, camera gate) as HOL functions over
  an explicit program state. Python objects that are shared and mutated (pymunk bodies)
  live in a store addressed by references; attributes of \<open>self\<close> are fields of the state
  record; an exception that escapes a handler is a value carrying the state at the
  moment it was raised.
\<close>

subsection \<open>Vectors and the pymunk/pygame coordinate helpers\<close>

type_synonym vec = "real \<times> real"
type_synonym pixel = "int \<times> int"

definition of_pixel :: "pixel \<Rightarrow> vec" where
  "of_pixel p = (of_int (fst p), of_int (snd p))"

definition vsub :: "vec \<Rightarrow> vec \<Rightarrow> vec" where
  "vsub a b = (fst a - fst b, snd a - snd b)"


definition smult :: "real \<Rightarrow> vec \<Rightarrow> vec" where
  "smult k v = (k * fst v, k * snd v)"

text \<open>\<open>Vec2d.rotated(angle)\<close>: counter-clockwise rotation by \<open>angle\<close> radians.\<close>

definition rotated :: "vec \<Rightarrow> real \<Rightarrow> vec" where
  "rotated v a = (fst v * cos a - snd v * sin a, fst v * sin a + snd v * cos a)"

text \<open>
  \<open>Vec2d.angle\<close>: \<open>0\<close> for the zero vector, \<open>atan2(y, x)\<close> otherwise; \<open>atan2\<close> is written
  out by quadrant over \<open>arctan\<close>.
\<close>

definition atan2 :: "real \<Rightarrow> real \<Rightarrow> real" where
  "atan2 y x =
     (if 0 < x then arctan (y / x)
      else if x < 0 then (if 0 \<le> y then arctan (y / x) + pi else arctan (y / x) - pi)
      else if 0 < y then pi / 2
      else if y < 0 then - (pi / 2)
      else 0)"

definition vec_angle :: "vec \<Rightarrow> real" where
  "vec_angle v = (if fst v * fst v + snd v * snd v = 0 then 0 else atan2 (snd v) (fst v))"

text \<open>
  Python's built-in \<open>round\<close> on a float: nearest integer, a tie going to the even
  neighbour.
\<close>

definition py_round :: "real \<Rightarrow> int" where
  "py_round x =
     (let f = \<lfloor>x\<rfloor>; d = x - of_int f
      in if d < 1 / 2 then f
         else if 1 / 2 < d then f + 1
         else if even f then f else f + 1)"

text \<open>
  \<open>pymunk.pygame_util\<close>: the module flag \<open>positive_y_is_up\<close> keeps its default
  (\<open>main.py\<close> never assigns it); \<open>to_pygame\<close> rounds both coordinates and flips the
  second one about the surface height only when the flag is set; \<open>from_pygame\<close> is
  \<open>to_pygame\<close>. The first argument is \<open>surface.get_height()\<close>.
\<close>

definition positive_y_is_up :: bool where
  "positive_y_is_up = False"

definition to_pygame :: "int \<Rightarrow> vec \<Rightarrow> pixel" where
  "to_pygame h p =
     (if positive_y_is_up then (py_round (fst p), h - py_round (snd p))
      else (py_round (fst p), py_round (snd p)))"

definition from_pygame :: "int \<Rightarrow> vec \<Rightarrow> pixel" where
  "from_pygame h p = to_pygame h p"

subsection \<open>Program state\<close>

text \<open>
  The camera object (\<open>projectile/includes/camera.py\<close>) is read through \<open>x_offset\<close> and
  \<open>y_offset\<close>; \<open>scaling\<close> and \<open>rotation\<close> are the second and third component of what
  \<open>compute_translation_and_scaling\<close> returns.
\<close>

record camera =
  x_offset :: real
  y_offset :: real
  scaling :: real
  rotation :: real

datatype body_type = DYNAMIC | KINEMATIC | STATIC

type_synonym ref = nat

text \<open>A shape knows its body (\<open>shape.body\<close>) and, for the overlay, its radius.\<close>

record shape =
  shape_body :: ref
  radius :: real

text \<open>
  A pymunk body. \<open>shapes\<close> is \<open>list(body.shapes)\<close>; \<open>impulses\<close> logs the calls of
  \<open>apply_impulse_at_local_point(impulse)\<close> (at the local origin), most recent first: what
  the engine makes of an impulse is outside this program.
\<close>

record body =
  body_type :: body_type
  position :: vec
  angle :: real
  shapes :: "shape list"
  impulses :: "vec list"

text \<open>
  A text-entry widget: its text and its busy flag, which the program reads, and the
  rectangle \<open>(x, y, width, height)\<close> where \<open>__draw_widgets\<close> places it.
\<close>

record entry =
  entry_text :: string
  status :: bool
  rect :: "int \<times> int \<times> int \<times> int"

datatype size_param = Radius int | Multiplier int

text \<open>
  A tracked obstacle (\<open>StaticObstacle\<close> of \<open>projectile/includes/sprites.py\<close>) as
  \<open>main.py\<close> uses it: \<open>name\<close>, \<open>body\<close> and \<open>shape\<close>, with its constructor arguments.
\<close>

record static_obstacle =
  name :: string
  ob_body :: ref
  ob_shape :: shape
  ob_kind :: string
  ob_size :: size_param

text \<open>
  The attributes of \<open>self\<close> that the handlers read or write, the store of body objects
  (\<open>heap\<close>, with \<open>next_ref\<close> the next unused reference), the physics space as its body
  list in iteration order and its shape list, and two readings of the environment:
  \<open>screen_height\<close> and \<open>mouse_get_pos\<close> (what \<open>pygame.mouse.get_pos()\<close> returns).
\<close>

record sim =
  heap :: "ref \<Rightarrow> body"
  next_ref :: ref
  space_bodies :: "ref list"
  space_shapes :: "shape list"
  screen_height :: int
  camera :: camera
  entry_name :: entry
  entry_multiplier :: entry
  entry_pos_x :: entry
  entry_pos_y :: entry
  selected_object :: string
  ready_to_step :: bool
  during_query :: bool
  show_info :: bool
  label_info :: string
  impulse :: real
  objects :: "static_obstacle list"
  projectile :: ref
  active_shape :: "shape option"
  pulling :: bool
  m_position :: "pixel option"
  mouse_get_pos :: pixel
  running :: bool

datatype exn = AttributeError | IndexError | ValueError | QueryError

text \<open>
  The outcome of a handler: \<open>Inr s\<close> when it returns with state \<open>s\<close>, \<open>Inl (e, s)\<close> when
  exception \<open>e\<close> leaves it with the state as it was at the raise.
\<close>

type_synonym outcome = "(exn \<times> sim) + sim"

text \<open>
  The engine's \<open>shape.point_query(p).distance\<close>, the one engine call whose answer the
  program branches on: it sees the program state at the call, and \<open>None\<close> stands for a
  query that raises.
\<close>

type_synonym engine = "sim \<Rightarrow> shape \<Rightarrow> pixel \<Rightarrow> real option"

definition entries :: "sim \<Rightarrow> entry list" where
  "entries s = [entry_name s, entry_multiplier s, entry_pos_x s, entry_pos_y s]"

subsection \<open>Pointer mappings\<close>

text \<open>
  Pointer to world, as on pointer-down and on \<open>C\<close>:
  \<open>from_pygame(tuple(np.subtract(pos, (camera.x_offset, camera.y_offset))), screen)\<close>.
\<close>

definition pointer_to_world :: "camera \<Rightarrow> int \<Rightarrow> pixel \<Rightarrow> pixel" where
  "pointer_to_world cam h pos =
     from_pygame h (vsub (of_pixel pos) (x_offset cam, y_offset cam))"


subsection \<open>Pointer-down: the hit test\<close>

text \<open>
  The loop \<open>for body in self.__space.bodies\<close> of the \<open>MOUSEBUTTONDOWN\<close> branch. There is
  no \<open>break\<close>: every body is visited, and each dynamic body whose query distance is
  negative overwrites the selection and is turned to face the pointer.
\<close>

fun hit_loop :: "engine \<Rightarrow> pixel \<Rightarrow> ref list \<Rightarrow> sim \<Rightarrow> outcome" where
  "hit_loop pq pg [] s = Inr s"
| "hit_loop pq pg (b # bs) s =
     (if body_type (heap s b) = DYNAMIC then
        (case shapes (heap s b) of
           [] \<Rightarrow> Inl (IndexError, s)
         | sh # _ \<Rightarrow>
             (let s1 = s\<lparr>during_query := True\<rparr> in
              case pq s1 sh pg of
                None \<Rightarrow> Inl (QueryError, s1)
              | Some distance \<Rightarrow>
                  (let s2 = s1\<lparr>during_query := False\<rparr> in
                   if distance < 0 then
                     hit_loop pq pg bs
                       (s2\<lparr>active_shape := Some sh, pulling := True,
                           heap := (heap s2)(shape_body sh :=
                             (heap s2 (shape_body sh))\<lparr>angle :=
                                vec_angle (vsub (of_pixel pg)
                                  (position (heap s2 (shape_body sh))))\<rparr>)\<rparr>)
                   else hit_loop pq pg bs s2)))
      else hit_loop pq pg bs s)"

definition on_mouse_down :: "engine \<Rightarrow> sim \<Rightarrow> outcome" where
  "on_mouse_down pq s =
     (let pg_position = pointer_to_world (camera s) (screen_height s) (mouse_get_pos s)
      in hit_loop pq pg_position (space_bodies s) (s\<lparr>active_shape := None\<rparr>))"

subsection \<open>Pointer-up: the launch\<close>

text \<open>
  Lines 329 to 341: the release position goes through \<open>from_pygame\<close> twice, and the
  impulse is \<open>self.__impulse * (point1 - point2).rotated(-active_body.angle)\<close>.
\<close>

definition release_impulse :: "sim \<Rightarrow> body \<Rightarrow> pixel \<Rightarrow> vec" where
  "release_impulse s active_body pos =
     (let new_event_pos = pointer_to_world (camera s) (screen_height s) pos;
          point1 = (fst (position active_body), snd (position active_body));
          point2 = from_pygame (screen_height s) (of_pixel new_event_pos)
      in smult (impulse s) (rotated (vsub point1 (of_pixel point2)) (- angle active_body)))"

definition apply_impulse_at_local_point :: "vec \<Rightarrow> body \<Rightarrow> body" where
  "apply_impulse_at_local_point i b = b\<lparr>impulses := i # impulses b\<rparr>"

definition on_mouse_up :: "pixel \<Rightarrow> sim \<Rightarrow> outcome" where
  "on_mouse_up pos s =
     (if pulling s then
        (let s1 = s\<lparr>pulling := False\<rparr> in
         case active_shape s1 of
           None \<Rightarrow> Inl (AttributeError, s1)
         | Some sh \<Rightarrow>
             (let active_body = heap s1 (shape_body sh)
              in Inr (s1\<lparr>heap := (heap s1)(shape_body sh :=
                    apply_impulse_at_local_point (release_impulse s1 active_body pos)
                      active_body)\<rparr>)))
      else Inr s)"

subsection \<open>Keys: delete the selection, create a projectile\<close>

text \<open>\<open>space.remove(shape, body)\<close> takes the two objects out of the space.\<close>

definition space_remove :: "shape \<Rightarrow> ref \<Rightarrow> sim \<Rightarrow> sim" where
  "space_remove sh b s =
     s\<lparr>space_shapes := remove1 sh (space_shapes s),
       space_bodies := remove1 b (space_bodies s)\<rparr>"

definition space_add :: "ref \<Rightarrow> shape \<Rightarrow> sim \<Rightarrow> sim" where
  "space_add b sh s =
     s\<lparr>space_bodies := space_bodies s @ [b], space_shapes := space_shapes s @ [sh]\<rparr>"

definition on_backspace :: "sim \<Rightarrow> sim" where
  "on_backspace s =
     (case active_shape s of
        None \<Rightarrow> s
      | Some sh \<Rightarrow> (space_remove sh (shape_body sh) s)\<lparr>active_shape := None\<rparr>)"

text \<open>
  Modelled from the spec: \<open>Projectile(position, radius)\<close> of
  \<open>projectile/includes/sprites.py\<close> (not under src/), "a dynamic body" with "exactly one
  attached shape": a fresh dynamic body at \<open>position\<close> with one circle of that radius.
\<close>

definition Projectile :: "ref \<Rightarrow> vec \<Rightarrow> real \<Rightarrow> body" where
  "Projectile r pos rad =
     \<lparr>body_type = DYNAMIC, position = pos, angle = 0,
      shapes = [\<lparr>shape_body = r, radius = rad\<rparr>], impulses = []\<rparr>"

definition create_projectile :: "sim \<Rightarrow> sim" where
  "create_projectile s =
     (if list_ex status (entries s) then s
      else
        (let pg_position = pointer_to_world (camera s) (screen_height s) (mouse_get_pos s);
             r = next_ref s;
             p = Projectile r (of_pixel pg_position) 20
         in space_add r \<lparr>shape_body = r, radius = 20\<rparr>
              (s\<lparr>heap := (heap s)(r := p), next_ref := Suc r, projectile := r\<rparr>)))"

subsection \<open>Camera gate\<close>

text \<open>
  \<open>__handle_camera_movement\<close>; \<open>upd\<close> is \<open>camera.compute_translation_and_scaling(keys)\<close>
  for the keys held in this frame (\<open>projectile/includes/camera.py\<close> is not under src/).
\<close>

definition handle_camera_movement :: "(camera \<Rightarrow> camera) \<Rightarrow> sim \<Rightarrow> sim" where
  "handle_camera_movement upd s =
     (if list_ex status (entries s) then s else s\<lparr>camera := upd (camera s)\<rparr>)"

subsection \<open>Obstacle lifecycle\<close>

text \<open>
  Modelled from the spec: the entry widget (\<open>includes/entry.py\<close>, not under src/), "text-entry
  fields expose \<open>get() -> string\<close>, \<open>get(as: numeric-type) -> number\<close>": \<open>entry_get\<close> is the
  text, \<open>entry_get_int\<close> is Python's \<open>int\<close> of it on the decimal digits the field's filter
  admits, \<open>None\<close> where \<open>int\<close> raises \<open>ValueError\<close>.
\<close>

definition entry_get :: "entry \<Rightarrow> string" where
  "entry_get e = entry_text e"

definition is_digit :: "char \<Rightarrow> bool" where
  "is_digit c = (48 \<le> (of_char c :: nat) \<and> (of_char c :: nat) \<le> 57)"

definition entry_get_int :: "entry \<Rightarrow> int option" where
  "entry_get_int e =
     (let t = entry_text e in
      if t = [] \<or> \<not> list_all is_digit t then None
      else Some (foldl (\<lambda>a c. 10 * a + (int (of_char c) - 48)) 0 t))"

text \<open>
  Modelled from the spec: \<open>StaticObstacle(name, position, shape, radius= | multiplier=)\<close> of
  \<open>projectile/includes/sprites.py\<close> (not under src/), which "registers it as static": a fresh
  static body at \<open>position\<close> with one shape.
\<close>

definition StaticObstacle ::
  "ref \<Rightarrow> string \<Rightarrow> pixel \<Rightarrow> string \<Rightarrow> size_param \<Rightarrow> static_obstacle \<times> body" where
  "StaticObstacle r n pos kind sz =
     (let sh = \<lparr>shape_body = r,
                radius = (case sz of Radius k \<Rightarrow> of_int k | Multiplier k \<Rightarrow> of_int k)\<rparr>
      in (\<lparr>name = n, ob_body = r, ob_shape = sh, ob_kind = kind, ob_size = sz\<rparr>,
          \<lparr>body_type = STATIC, position = of_pixel pos, angle = 0,
           shapes = [sh], impulses = []\<rparr>))"

text \<open>\<open>__create(shape)\<close>.\<close>

definition create :: "string \<Rightarrow> sim \<Rightarrow> outcome" where
  "create shape_name s =
     (if ready_to_step s \<or> during_query s then
        Inr (s\<lparr>show_info := True,
               label_info := ''Can not create object during space step or query''\<rparr>)
      else if \<not> ready_to_step s \<and> \<not> during_query s then
        (if list_ex (\<lambda>e. entry_get e = []) (entries s) then
           Inr (s\<lparr>show_info := True, label_info := ''Please fill all the fields''\<rparr>)
         else
           (case (entry_get_int (entry_pos_x s), entry_get_int (entry_pos_y s),
                  entry_get_int (entry_multiplier s)) of
              (Some x, Some y, Some m) \<Rightarrow>
                (let r = next_ref s;
                     (tmp_object, b) =
                       StaticObstacle r (entry_get (entry_name s)) (x, y) shape_name
                         (if selected_object s = ''Circle'' then Radius m else Multiplier m)
                 in Inr (space_add (ob_body tmp_object) (ob_shape tmp_object)
                      (s\<lparr>heap := (heap s)(r := b), next_ref := Suc r,
                         objects := objects s @ [tmp_object],
                         show_info := False, label_info := []\<rparr>)))
            | _ \<Rightarrow> Inl (ValueError, s)))
      else Inr s)"

text \<open>
  The loop of \<open>__remove\<close>: \<open>for object in self.__objects\<close> walks the list by index while
  \<open>self.__objects.remove(object)\<close> shortens it, so the element that follows a removed one
  is skipped.
\<close>

function remove_loop :: "string \<Rightarrow> nat \<Rightarrow> sim \<Rightarrow> sim" where
  "remove_loop remove_name i s =
     (if i < length (objects s) then
        (let ob = objects s ! i in
         if name ob = remove_name then
           remove_loop remove_name (Suc i)
             ((space_remove (ob_shape ob) (ob_body ob) s)\<lparr>objects := remove1 ob (objects s)\<rparr>)
         else remove_loop remove_name (Suc i) s)
      else s)"
  by pat_completeness auto
termination
  by (relation "measure (\<lambda>(n, i, s). length (objects s) - i)")
     (auto simp: space_remove_def length_remove1)

text \<open>\<open>__remove()\<close>; \<open>CHR 0x22\<close> is the double quote of the message.\<close>

definition remove :: "sim \<Rightarrow> sim" where
  "remove s =
     (if ready_to_step s \<or> during_query s then
        s\<lparr>show_info := True,
          label_info := ''Can not remove object during space step or query''\<rparr>
      else if \<not> ready_to_step s \<and> \<not> during_query s then
        (if entry_get (entry_name s) = [] then
           s\<lparr>show_info := True, label_info := ''Please fill '' @ [CHR 0x22] @ ''name'' @ [CHR 0x22] @ '' field''\<rparr>
         else remove_loop (entry_get (entry_name s)) 0 (s\<lparr>show_info := False, label_info := []\<rparr>))
      else s)"

subsection \<open>The event loop\<close>

datatype key = K_ESCAPE | K_c | K_BACKSPACE | K_OTHER

datatype event =
    KEYDOWN key
  | MOUSEBUTTONDOWN pixel
  | MOUSEMOTION pixel
  | MOUSEBUTTONUP pixel
  | OTHER

text \<open>
  One turn of \<open>for event in pygame.event.get()\<close>. \<open>ent\<close> is \<open>entry.handle_entry_events\<close>
  (\<open>includes/entry.py\<close> is not under src/), which every entry sees first. A pointer event
  carries its \<open>event.pos\<close>; the \<open>MOUSEBUTTONDOWN\<close> branch does not read it, it reads
  \<open>pygame.mouse.get_pos()\<close>.
\<close>

definition handle_entries :: "(event \<Rightarrow> entry \<Rightarrow> entry) \<Rightarrow> event \<Rightarrow> sim \<Rightarrow> sim" where
  "handle_entries ent ev s =
     s\<lparr>entry_name := ent ev (entry_name s), entry_multiplier := ent ev (entry_multiplier s),
       entry_pos_x := ent ev (entry_pos_x s), entry_pos_y := ent ev (entry_pos_y s)\<rparr>"

definition handle_event ::
  "(event \<Rightarrow> entry \<Rightarrow> entry) \<Rightarrow> engine \<Rightarrow> event \<Rightarrow> sim \<Rightarrow> outcome" where
  "handle_event ent pq ev s =
     (let s0 = handle_entries ent ev s in
      case ev of
        KEYDOWN k \<Rightarrow>
          (if k = K_ESCAPE then Inr (s0\<lparr>running := False\<rparr>)
           else if k = K_c then Inr (create_projectile s0)
           else if k = K_BACKSPACE \<and> active_shape s0 \<noteq> None then Inr (on_backspace s0)
           else Inr s0)
      | MOUSEBUTTONDOWN pos \<Rightarrow> on_mouse_down pq s0
      | MOUSEMOTION pos \<Rightarrow> Inr (s0\<lparr>m_position := Some pos\<rparr>)
      | MOUSEBUTTONUP pos \<Rightarrow> on_mouse_up pos s0
      | OTHER \<Rightarrow> Inr s0)"

text \<open>The loop stops at an escaping exception and at \<open>return 0\<close> after Escape.\<close>

fun handle_events ::
  "(event \<Rightarrow> entry \<Rightarrow> entry) \<Rightarrow> engine \<Rightarrow> event list \<Rightarrow> sim \<Rightarrow> outcome" where
  "handle_events ent pq [] s = Inr s"
| "handle_events ent pq (ev # evs) s =
     (case handle_event ent pq ev s of
        Inl x \<Rightarrow> Inl x
      | Inr s' \<Rightarrow> if running s' then handle_events ent pq evs s' else Inr s')"

subsection \<open>The state after \<open>__init__\<close> and a circle engine\<close>

text \<open>
  \<open>__init__\<close>: the space holds the boundary segments (shapes on the space's static body,
  reference \<open>0\<close>, which is not one of \<open>space.bodies\<close>) and the first projectile at
  \<open>(100, 100)\<close> with radius \<open>25\<close> (reference \<open>1\<close>); the window is \<open>SIZE = (600, 600)\<close>. The
  boundary's segments (\<open>Boundary\<close> is not under src/) and the camera that \<open>Camera(5, 0.01,
  0.01)\<close> builds are parameters; \<open>init_widgets\<close> leaves the four entries empty and idle,
  and they stand where \<open>__draw_widgets\<close> places them.
\<close>

definition static_body :: body where
  "static_body = \<lparr>body_type = STATIC, position = (0, 0), angle = 0, shapes = [], impulses = []\<rparr>"

definition idle_entry :: "int \<times> int \<times> int \<times> int \<Rightarrow> entry" where
  "idle_entry r = \<lparr>entry_text = [], status = False, rect = r\<rparr>"

definition init :: "shape list \<Rightarrow> camera \<Rightarrow> pixel \<Rightarrow> sim" where
  "init segments cam mouse =
     \<lparr>heap = (\<lambda>_. static_body)(1 := Projectile 1 (100, 100) 25),
      next_ref = 2,
      space_bodies = [1],
      space_shapes = segments @ [\<lparr>shape_body = 1, radius = 25\<rparr>],
      screen_height = 600,
      camera = cam,
      entry_name = idle_entry (400, 175, 200, 35),
      entry_multiplier = idle_entry (400, 215, 200, 35),
      entry_pos_x = idle_entry (400, 255, 95, 35),
      entry_pos_y = idle_entry (505, 255, 95, 35),
      selected_object = ''Circle'',
      ready_to_step = False, during_query = False,
      show_info = False, label_info = [],
      impulse = - 1000,
      objects = [],
      projectile = 1,
      active_shape = None, pulling = False,
      m_position = None, mouse_get_pos = mouse,
      running = True\<rparr>"

definition camera0 :: camera where
  "camera0 = \<lparr>x_offset = 0, y_offset = 0, scaling = 1, rotation = 0\<rparr>"

text \<open>
  An engine for the examples: the signed distance of a point to a circle of the shape's
  radius centred on the shape's body, which is what the engine answers for a circle.
\<close>

definition circle_engine :: engine where
  "circle_engine s sh pg =
     (let c = position (heap s (shape_body sh)); d = vsub (of_pixel pg) c
      in Some (sqrt (fst d * fst d + snd d * snd d) - radius sh))"

text \<open>The state in which an outcome leaves the program.\<close>

definition final_state :: "outcome \<Rightarrow> sim" where
  "final_state r = (case r of Inl (e, s) \<Rightarrow> s | Inr s \<Rightarrow> s)"

definition raised :: "outcome \<Rightarrow> exn option" where
  "raised r = (case r of Inl (e, s) \<Rightarrow> Some e | Inr s \<Rightarrow> None)"

text \<open>
  An example state: \<open>aiming pos cam\<close> is the initial state in the middle of a drag, with
  the projectile at \<open>pos\<close> selected and pulled.
\<close>

definition aiming :: "vec \<Rightarrow> camera \<Rightarrow> sim" where
  "aiming pos cam =
     (init [] cam (0, 0))
       \<lparr>heap := (heap (init [] cam (0, 0)))(1 := Projectile 1 pos 25),
        active_shape := Some \<lparr>shape_body = 1, radius = 25\<rparr>,
        pulling := True\<rparr>"

text \<open>
  An entry widget for the examples: a pointer-down inside the entry's rectangle gives it
  the focus (it reports busy), a pointer-down outside takes the focus away, and no other
  event changes it.
\<close>

definition inside :: "int \<times> int \<times> int \<times> int \<Rightarrow> pixel \<Rightarrow> bool" where
  "inside r p =
     (case r of (x, y, w, h) \<Rightarrow> x \<le> fst p \<and> fst p < x + w \<and> y \<le> snd p \<and> snd p < y + h)"

definition click_focus :: "event \<Rightarrow> entry \<Rightarrow> entry" where
  "click_focus ev e =
     (case ev of MOUSEBUTTONDOWN pos \<Rightarrow> e\<lparr>status := inside (rect e) pos\<rparr> | _ \<Rightarrow> e)"

text \<open>
  The camera panned by \<open>(350, 90)\<close>: the first projectile, at world \<open>(100, 100)\<close>, is then under
  the pointer at \<open>(450, 190)\<close>, inside the name entry.
\<close>

definition camera_panned :: camera where
  "camera_panned = \<lparr>x_offset = 350, y_offset = 90, scaling = 1, rotation = 0\<rparr>"

text \<open>
  For stating which body a pointer-down selects: the first shape of a body, the body that
  shape names as its own (\<open>shape.body\<close>), and whether a body is a dynamic one that contains
  the point according to the engine's answer in state \<open>s\<close>.
\<close>

definition first_shape :: "sim \<Rightarrow> ref \<Rightarrow> shape option" where
  "first_shape s b = (case shapes (heap s b) of [] \<Rightarrow> None | sh # _ \<Rightarrow> Some sh)"

definition shape_owner :: "sim \<Rightarrow> ref \<Rightarrow> ref" where
  "shape_owner s b = (case first_shape s b of None \<Rightarrow> b | Some sh \<Rightarrow> shape_body sh)"

definition contains :: "engine \<Rightarrow> sim \<Rightarrow> pixel \<Rightarrow> ref \<Rightarrow> bool" where
  "contains pq s pg b =
     (body_type (heap s b) = DYNAMIC \<and>
      (case first_shape s b of
         None \<Rightarrow> False
       | Some sh \<Rightarrow> (case pq s sh pg of None \<Rightarrow> False | Some d \<Rightarrow> d < 0)))"

text \<open>The angle that turns the body \<open>r\<close> of state \<open>s\<close> to face the point.\<close>

definition facing :: "sim \<Rightarrow> pixel \<Rightarrow> ref \<Rightarrow> real" where
  "facing s pg r = vec_angle (vsub (of_pixel pg) (position (heap s r)))"

text \<open>
  The initial scene after \<open>C\<close> with the pointer on the first projectile's centre: a second
  projectile (reference \<open>2\<close>, radius \<open>20\<close>) lies on the first.
\<close>

definition two_projectiles :: sim where
  "two_projectiles = create_projectile (init [] camera0 (100, 100))"

text \<open>
  The initial state with the four entries filled in for a circle named \<open>A\<close> at \<open>(50, 50)\<close>
  with radius \<open>10\<close>.
\<close>

definition filled :: sim where
  "filled =
     (init [] camera0 (0, 0))
       \<lparr>entry_name := (idle_entry (400, 175, 200, 35))\<lparr>entry_text := ''A''\<rparr>,
        entry_multiplier := (idle_entry (400, 215, 200, 35))\<lparr>entry_text := ''10''\<rparr>,
        entry_pos_x := (idle_entry (400, 255, 95, 35))\<lparr>entry_text := ''50''\<rparr>,
        entry_pos_y := (idle_entry (505, 255, 95, 35))\<lparr>entry_text := ''50''\<rparr>\<rparr>"

definition obstacle_A :: static_obstacle where
  "obstacle_A =
     \<lparr>name = ''A'', ob_body = 2, ob_shape = \<lparr>shape_body = 2, radius = 10\<rparr>,
      ob_kind = ''Circle'', ob_size = Radius 10\<rparr>"

section \<open>Properties\<close>

subsection \<open>Rounding and the pointer mappings\<close>

lemma py_round_of_int: "py_round (of_int k) = k"
  by (simp add: py_round_def)





lemma from_pygame_of_pixel: "from_pygame h (of_pixel p) = p"
  by (simp add: from_pygame_def to_pygame_def positive_y_is_up_def of_pixel_def py_round_of_int)




subsection \<open>Pointer-up: the impulse and the flags\<close>

lemma release_impulse_eq:
  "release_impulse s b pos =
     smult (impulse s)
       (rotated (vsub (position b)
          (of_pixel (pointer_to_world (camera s) (screen_height s) pos))) (- angle b))"
  by (simp add: release_impulse_def from_pygame_of_pixel Let_def)

lemma on_mouse_up_pulling:
  assumes "pulling s" and "active_shape s = Some sh"
  shows "on_mouse_up pos s =
     Inr (s\<lparr>pulling := False,
            heap := (heap s)(shape_body sh :=
              apply_impulse_at_local_point (release_impulse s (heap s (shape_body sh)) pos)
                (heap s (shape_body sh)))\<rparr>)"
  using assms by (simp add: on_mouse_up_def Let_def release_impulse_def)

lemma aiming_simps:
  "pulling (aiming pos cam)" "active_shape (aiming pos cam) = Some \<lparr>shape_body = 1, radius = 25\<rparr>"
  "heap (aiming pos cam) (Suc 0) = Projectile 1 pos 25" "impulse (aiming pos cam) = - 1000"
  "camera (aiming pos cam) = cam" "screen_height (aiming pos cam) = 600"
  by (simp_all add: aiming_def init_def)

lemma ptw10: "pointer_to_world \<lparr>x_offset = 10, y_offset = 0, scaling = 1, rotation = 0\<rparr> 600 (0, 0) = (- 10, 0)"
  using py_round_of_int [of "- 10"] py_round_of_int [of 0]
  by (simp add: pointer_to_world_def from_pygame_def to_pygame_def positive_y_is_up_def
      of_pixel_def vsub_def)

text \<open>
  C2 (as amended). On a pointer-up that ends a drag of the selected body, the impulse
  applied to it is \<open>impulse * (position - release).rotated(-angle)\<close>, where \<open>release\<close> is the
  release point mapped to world coordinates and \<open>impulse\<close> is the program's constant
  \<open>-1000\<close>. For a body at world \<open>(0, 0)\<close> with angle \<open>0\<close> and a release point mapping to
  world \<open>(-10, 0)\<close> the impulse is \<open>(-10000, 0)\<close>: its x-component is strictly negative and
  its y-component is zero.
\<close>

theorem launch_impulse_formula:
  assumes "pulling s" and "active_shape s = Some sh"
  shows "\<exists>s'. on_mouse_up pos s = Inr s' \<and>
     impulses (heap s' (shape_body sh)) =
       smult (impulse s)
         (rotated (vsub (position (heap s (shape_body sh)))
            (of_pixel (pointer_to_world (camera s) (screen_height s) pos)))
            (- angle (heap s (shape_body sh))))
       # impulses (heap s (shape_body sh)) \<and>
     (impulse s = - 1000 \<and> position (heap s (shape_body sh)) = (0, 0) \<and>
      angle (heap s (shape_body sh)) = 0 \<and>
      pointer_to_world (camera s) (screen_height s) pos = (- 10, 0) \<longrightarrow>
        hd (impulses (heap s' (shape_body sh))) = (- 10000, 0))"
  by (simp add: on_mouse_up_pulling [OF assms] apply_impulse_at_local_point_def
      release_impulse_eq smult_def rotated_def vsub_def of_pixel_def)

theorem launch_impulse_formula_witness:
  "pulling (aiming (0, 0) \<lparr>x_offset = 10, y_offset = 0, scaling = 1, rotation = 0\<rparr>) \<and>
   active_shape (aiming (0, 0) \<lparr>x_offset = 10, y_offset = 0, scaling = 1, rotation = 0\<rparr>)
     = Some \<lparr>shape_body = 1, radius = 25\<rparr> \<and>
   raised (on_mouse_up (0, 0)
     (aiming (0, 0) \<lparr>x_offset = 10, y_offset = 0, scaling = 1, rotation = 0\<rparr>)) = None \<and>
   impulses (heap (final_state (on_mouse_up (0, 0)
     (aiming (0, 0) \<lparr>x_offset = 10, y_offset = 0, scaling = 1, rotation = 0\<rparr>))) 1)
     = [(- 10000, 0)]"
  using launch_impulse_formula
    [of "aiming (0, 0) \<lparr>x_offset = 10, y_offset = 0, scaling = 1, rotation = 0\<rparr>"
        "\<lparr>shape_body = 1, radius = 25\<rparr>" "(0, 0)"]
  by (auto simp: aiming_simps ptw10 Projectile_def final_state_def raised_def
      smult_def rotated_def vsub_def of_pixel_def)

text \<open>
  C2 as stated fails: at the body position, angle and release point the claim names, the
  x-component of the applied impulse is \<open>-10000\<close>, not positive.
\<close>

theorem launch_impulse_counterexample:
  "pointer_to_world \<lparr>x_offset = 10, y_offset = 0, scaling = 1, rotation = 0\<rparr> 600 (0, 0)
     = (- 10, 0) \<and>
   position (heap (aiming (0, 0) \<lparr>x_offset = 10, y_offset = 0, scaling = 1, rotation = 0\<rparr>) 1)
     = (0, 0) \<and>
   angle (heap (aiming (0, 0) \<lparr>x_offset = 10, y_offset = 0, scaling = 1, rotation = 0\<rparr>) 1)
     = 0 \<and>
   hd (impulses (heap (final_state (on_mouse_up (0, 0)
     (aiming (0, 0) \<lparr>x_offset = 10, y_offset = 0, scaling = 1, rotation = 0\<rparr>))) 1))
     = (- 10000, 0) \<and>
   \<not> 0 < fst (hd (impulses (heap (final_state (on_mouse_up (0, 0)
     (aiming (0, 0) \<lparr>x_offset = 10, y_offset = 0, scaling = 1, rotation = 0\<rparr>))) 1)))"
  by (simp add: on_mouse_up_pulling [OF aiming_simps(1) aiming_simps(2)] aiming_simps ptw10
      Projectile_def final_state_def apply_impulse_at_local_point_def release_impulse_eq
      smult_def rotated_def vsub_def of_pixel_def)

text \<open>
  C7 (as amended). On every pointer-up that ends an aiming drag of a selected body, the
  controller computes the launch impulse, applies it to that body and clears the pulling
  flag; the selection stays on the launched body (it is what Backspace deletes and what a
  later pointer-down replaces).
\<close>

theorem pointer_up_keeps_selection:
  assumes "pulling s" and "active_shape s = Some sh"
  shows "\<exists>s'. on_mouse_up pos s = Inr s' \<and> \<not> pulling s' \<and> active_shape s' = Some sh \<and>
     impulses (heap s' (shape_body sh)) =
       release_impulse s (heap s (shape_body sh)) pos # impulses (heap s (shape_body sh))"
  using assms by (simp add: on_mouse_up_pulling [OF assms] apply_impulse_at_local_point_def)

theorem pointer_up_keeps_selection_witness:
  "pulling (aiming (100, 100) camera0) \<and>
   active_shape (aiming (100, 100) camera0) = Some \<lparr>shape_body = 1, radius = 25\<rparr> \<and>
   raised (on_mouse_up (60, 100) (aiming (100, 100) camera0)) = None \<and>
   \<not> pulling (final_state (on_mouse_up (60, 100) (aiming (100, 100) camera0)))"
  using pointer_up_keeps_selection
    [of "aiming (100, 100) camera0" "\<lparr>shape_body = 1, radius = 25\<rparr>" "(60, 100)"]
  by (auto simp: aiming_simps final_state_def raised_def)

text \<open>
  C7 as stated fails: after the pointer-up that ends a drag of the projectile, the
  projectile's shape is still the active shape.
\<close>

theorem pointer_up_clears_selection_counterexample:
  "pulling (aiming (100, 100) camera0) \<and>
   active_shape (final_state (on_mouse_up (60, 100) (aiming (100, 100) camera0)))
     = Some \<lparr>shape_body = 1, radius = 25\<rparr> \<and>
   active_shape (final_state (on_mouse_up (60, 100) (aiming (100, 100) camera0))) \<noteq> None"
  by (simp add: on_mouse_up_pulling [OF aiming_simps(1) aiming_simps(2)] aiming_simps
      final_state_def)

subsection \<open>The lifecycle guard\<close>

text \<open>
  C3. Whenever \<open>__create\<close> or \<open>__remove\<close> runs while the step guard or the query guard is
  set, it reports the refusal (the info label is shown with the "Can not ... during space
  step or query" message, the program's form of a concurrent-mutation error), and the
  tracked-object list, the bodies and shapes of the space and the body store are unchanged.
\<close>

theorem lifecycle_guard:
  assumes "ready_to_step s \<or> during_query s"
  shows "(\<exists>s'. create shape_name s = Inr s' \<and> show_info s' \<and>
            label_info s' = ''Can not create object during space step or query'' \<and>
            objects s' = objects s \<and> space_bodies s' = space_bodies s \<and>
            space_shapes s' = space_shapes s \<and> heap s' = heap s) \<and>
         show_info (remove s) \<and>
         label_info (remove s) = ''Can not remove object during space step or query'' \<and>
         objects (remove s) = objects s \<and> space_bodies (remove s) = space_bodies s \<and>
         space_shapes (remove s) = space_shapes s \<and> heap (remove s) = heap s"
  using assms by (auto simp: create_def remove_def)

theorem lifecycle_guard_witness:
  "(ready_to_step ((init [] camera0 (0, 0))\<lparr>ready_to_step := True\<rparr>) \<or>
    during_query ((init [] camera0 (0, 0))\<lparr>ready_to_step := True\<rparr>)) \<and>
   raised (create ''Circle'' ((init [] camera0 (0, 0))\<lparr>ready_to_step := True\<rparr>)) = None \<and>
   objects (final_state (create ''Circle'' ((init [] camera0 (0, 0))\<lparr>ready_to_step := True\<rparr>)))
     = [] \<and>
   objects (remove ((init [] camera0 (0, 0))\<lparr>ready_to_step := True\<rparr>)) = []"
  using lifecycle_guard [of "(init [] camera0 (0, 0))\<lparr>ready_to_step := True\<rparr>" "''Circle''"]
  by (auto simp: init_def final_state_def raised_def)

subsection \<open>The hit test: the query guard\<close>

lemma hit_loop_guarded:
  "hit_loop (\<lambda>s' sh q. if during_query s' then pq s' sh q else None) pg bs s
     = hit_loop pq pg bs s"
  by (induction bs arbitrary: s) (simp_all add: Let_def split: list.splits option.splits)

lemma hit_loop_returns_guard:
  "hit_loop pq pg bs s = Inr s' \<Longrightarrow>
     during_query s' = (during_query s \<and> \<not> list_ex (\<lambda>b. body_type (heap s b) = DYNAMIC) bs)"
proof (induction bs arbitrary: s)
  case Nil
  then show ?case by simp
next
  case (Cons b bs)
  show ?case
  proof (cases "body_type (heap s b) = DYNAMIC")
    case False
    with Cons show ?thesis by simp
  next
    case True
    with Cons.prems obtain sh rest d where sh: "shapes (heap s b) = sh # rest"
      and d: "pq (s\<lparr>during_query := True\<rparr>) sh pg = Some d"
      by (auto simp: Let_def split: list.splits option.splits)
    show ?thesis
    proof (cases "d < 0")
      case True
      with Cons.prems \<open>body_type (heap s b) = DYNAMIC\<close> sh d
      show ?thesis using Cons.IH by (auto simp: Let_def)
    next
      case False
      with Cons.prems \<open>body_type (heap s b) = DYNAMIC\<close> sh d
      show ?thesis using Cons.IH by (auto simp: Let_def)
    qed
  qed
qed

lemma hit_loop_raises_guard:
  "hit_loop pq pg bs s = Inl (QueryError, s') \<Longrightarrow> during_query s'"
  by (induction bs arbitrary: s)
     (auto simp: Let_def split: if_splits list.splits option.splits)

lemma ptw0: "pointer_to_world camera0 h p = p"
  using from_pygame_of_pixel [of h p]
  by (simp add: pointer_to_world_def camera0_def vsub_def of_pixel_def)

lemma mouse_down_init:
  "on_mouse_down circle_engine (init [] camera0 (100, 100)) =
     Inr ((init [] camera0 (100, 100))\<lparr>active_shape := Some \<lparr>shape_body = 1, radius = 25\<rparr>,
        pulling := True\<rparr>)"
  by (simp add: on_mouse_down_def ptw0 Let_def init_def Projectile_def circle_engine_def
      vsub_def of_pixel_def vec_angle_def)

text \<open>
  C4 (as amended). The hit test sets the query guard before each point query (an engine
  that refuses every query issued with the guard clear gives the same outcome) and clears
  it after each query that returns: a hit test that returns leaves the guard clear if it
  queried any body, that is if the space has a dynamic body, and as it found it otherwise.
  When a point query raises, the error leaves the handler with the guard still set: there
  is no release on error.
\<close>

theorem query_guard_discipline:
  "on_mouse_down (\<lambda>s' sh q. if during_query s' then pq s' sh q else None) s
     = on_mouse_down pq s \<and>
   (\<forall>s'. on_mouse_down pq s = Inr s' \<longrightarrow>
      during_query s' =
        (during_query s \<and> \<not> list_ex (\<lambda>b. body_type (heap s b) = DYNAMIC) (space_bodies s))) \<and>
   (\<forall>s'. on_mouse_down pq s = Inl (QueryError, s') \<longrightarrow> during_query s')"
  using hit_loop_returns_guard [of pq _ "space_bodies s" "s\<lparr>active_shape := None\<rparr>"]
    hit_loop_raises_guard [of pq _ "space_bodies s" "s\<lparr>active_shape := None\<rparr>"]
  by (auto simp: on_mouse_down_def Let_def hit_loop_guarded)

theorem query_guard_discipline_witness:
  "raised (on_mouse_down circle_engine (init [] camera0 (100, 100))) = None \<and>
   \<not> during_query (final_state (on_mouse_down circle_engine (init [] camera0 (100, 100)))) \<and>
   raised (on_mouse_down (\<lambda>s sh p. None) (init [] camera0 (100, 100))) = Some QueryError \<and>
   during_query (final_state (on_mouse_down (\<lambda>s sh p. None) (init [] camera0 (100, 100))))"
proof -
  obtain t where t: "on_mouse_down circle_engine (init [] camera0 (100, 100)) = Inr t"
    by (simp add: mouse_down_init)
  obtain u where u: "on_mouse_down (\<lambda>s sh p. None) (init [] camera0 (100, 100))
      = Inl (QueryError, u)"
    by (simp add: on_mouse_down_def ptw0 Let_def init_def Projectile_def)
  from query_guard_discipline [of circle_engine "init [] camera0 (100, 100)"] t
  have "\<not> during_query t" by (simp add: init_def Projectile_def)
  moreover from query_guard_discipline [of "\<lambda>s sh p. None" "init [] camera0 (100, 100)"] u
  have "during_query u" by simp
  ultimately show ?thesis using t u by (simp add: raised_def final_state_def)
qed

text \<open>
  C4 as stated fails: with an engine whose point query raises, the pointer-down on the
  initial scene ends in the query's error with the guard left set.
\<close>

theorem query_guard_counterexample:
  "raised (on_mouse_down (\<lambda>s sh p. None) (init [] camera0 (100, 100))) = Some QueryError \<and>
   during_query (final_state (on_mouse_down (\<lambda>s sh p. None) (init [] camera0 (100, 100))))"
  by (simp add: on_mouse_down_def ptw0 Let_def init_def Projectile_def raised_def
      final_state_def)

subsection \<open>The hit test: what is selected\<close>




subsection \<open>The hit test: several bodies under the pointer\<close>

lemma hit_frame:
  assumes "\<forall>t u sh p. (\<forall>r. position (heap t r) = position (heap u r)) \<longrightarrow> pq t sh p = pq u sh p"
    and "\<And>r. body_type (heap u r) = body_type (heap s r)"
    and "\<And>r. shapes (heap u r) = shapes (heap s r)"
    and "\<And>r. position (heap u r) = position (heap s r)"
  shows "contains pq u pg = contains pq s pg" and "first_shape u = first_shape s"
    and "shape_owner u = shape_owner s" and "facing u pg = facing s pg"
proof -
  have q: "pq u sh p = pq s sh p" for sh p
    using assms(1) [rule_format, of u s sh p] assms(4) by simp
  show "first_shape u = first_shape s"
    using assms(3) by (simp add: first_shape_def fun_eq_iff)
  then show "contains pq u pg = contains pq s pg" "shape_owner u = shape_owner s"
    using assms(2) q by (auto simp: contains_def shape_owner_def fun_eq_iff split: option.splits)
  show "facing u pg = facing s pg"
    using assms(4) by (simp add: facing_def fun_eq_iff)
qed

lemma hit_loop_effect:
  assumes po: "\<forall>t u sh p. (\<forall>r. position (heap t r) = position (heap u r)) \<longrightarrow>
      pq t sh p = pq u sh p"
  shows "hit_loop pq pg bs s = Inr t \<Longrightarrow>
     active_shape t =
       (case filter (contains pq s pg) bs of
          [] \<Rightarrow> active_shape s
        | b # ms \<Rightarrow> first_shape s (last (b # ms))) \<and>
     pulling t = (pulling s \<or> filter (contains pq s pg) bs \<noteq> []) \<and>
     heap t =
       (\<lambda>r. if r \<in> shape_owner s ` set (filter (contains pq s pg) bs)
            then (heap s r)\<lparr>angle := facing s pg r\<rparr> else heap s r)"
proof (induction bs arbitrary: s)
  case Nil
  then show ?case by simp
next
  case (Cons b bs)
  show ?case
  proof (cases "body_type (heap s b) = DYNAMIC")
    case False
    with Cons.prems have "hit_loop pq pg bs s = Inr t" by simp
    from Cons.IH [OF this] False show ?thesis by (simp add: contains_def)
  next
    case dyn: True
    with Cons.prems obtain sh rest d where shs: "shapes (heap s b) = sh # rest"
      and d0: "pq (s\<lparr>during_query := True\<rparr>) sh pg = Some d"
      by (auto simp: Let_def split: list.splits option.splits)
    have "pq (s\<lparr>during_query := True\<rparr>) sh pg = pq s sh pg"
      using po [rule_format, of "s\<lparr>during_query := True\<rparr>" s sh pg] by simp
    with d0 have d: "pq s sh pg = Some d" by simp
    have fs: "first_shape s b = Some sh" using shs by (simp add: first_shape_def)
    have ow: "shape_owner s b = shape_body sh" using fs by (simp add: shape_owner_def)
    show ?thesis
    proof (cases "d < 0")
      case False
      let ?u = "s\<lparr>during_query := False\<rparr>"
      from False dyn shs d0 Cons.prems
      have "hit_loop pq pg bs ?u = Inr t"
        by (simp add: Let_def)
      note ih = Cons.IH [OF this]
      have fr: "contains pq ?u pg = contains pq s pg" "first_shape ?u = first_shape s"
        "shape_owner ?u = shape_owner s" "facing ?u pg = facing s pg"
        by (rule hit_frame [OF po]; simp)+
      have nc: "\<not> contains pq s pg b"
        using False fs d by (simp add: contains_def)
      have hu: "heap ?u = heap s" "active_shape ?u = active_shape s" "pulling ?u = pulling s"
        by simp_all
      from ih show ?thesis
        unfolding fr hu using nc by (simp split: list.splits)
    next
      case True
      let ?u = "s\<lparr>during_query := False, active_shape := Some sh, pulling := True,
            heap := (heap s)(shape_body sh :=
              (heap s (shape_body sh))\<lparr>angle := facing s pg (shape_body sh)\<rparr>)\<rparr>"
      from True dyn shs d0 Cons.prems
      have "hit_loop pq pg bs ?u = Inr t"
        by (simp add: Let_def facing_def)
      note ih = Cons.IH [OF this]
      have fr: "contains pq ?u pg = contains pq s pg" "first_shape ?u = first_shape s"
        "shape_owner ?u = shape_owner s" "facing ?u pg = facing s pg"
        by (rule hit_frame [OF po]; simp)+
      have c: "contains pq s pg b"
        using True dyn fs d by (simp add: contains_def)
      from ih have a1: "active_shape t =
          (case filter (contains pq s pg) bs of
             [] \<Rightarrow> Some sh
           | b # ms \<Rightarrow> first_shape s (last (b # ms)))"
        and a2: "pulling t"
        and a3: "heap t =
          (\<lambda>r. if r \<in> shape_owner s ` set (filter (contains pq s pg) bs)
               then (heap ?u r)\<lparr>angle := facing s pg r\<rparr> else heap ?u r)"
        unfolding fr by (simp_all split: list.splits)
      have h: "heap t =
          (\<lambda>r. if r \<in> shape_owner s ` set (filter (contains pq s pg) (b # bs))
               then (heap s r)\<lparr>angle := facing s pg r\<rparr> else heap s r)"
      proof (rule ext)
        fix r
        have hu: "heap ?u r = (if r = shape_body sh
            then (heap s r)\<lparr>angle := facing s pg r\<rparr> else heap s r)"
          by simp
        show "heap t r =
          (if r \<in> shape_owner s ` set (filter (contains pq s pg) (b # bs))
           then (heap s r)\<lparr>angle := facing s pg r\<rparr> else heap s r)"
          unfolding a3 hu using c ow by auto
      qed
      from a1 a2 h c fs show ?thesis by (simp split: list.splits)
    qed
  qed
qed


lemma on_mouse_down_effect:
  assumes "\<forall>t u sh p. (\<forall>r. position (heap t r) = position (heap u r)) \<longrightarrow>
      pq t sh p = pq u sh p"
    and "on_mouse_down pq s = Inr s'"
  shows "active_shape s' =
       (case filter (contains pq s (pointer_to_world (camera s) (screen_height s) (mouse_get_pos s)))
               (space_bodies s) of
          [] \<Rightarrow> None
        | b # ms \<Rightarrow> first_shape s (last (b # ms))) \<and>
     pulling s' =
       (pulling s \<or>
        filter (contains pq s (pointer_to_world (camera s) (screen_height s) (mouse_get_pos s)))
          (space_bodies s) \<noteq> []) \<and>
     heap s' =
       (\<lambda>r. if r \<in> shape_owner s `
                 set (filter (contains pq s
                        (pointer_to_world (camera s) (screen_height s) (mouse_get_pos s)))
                      (space_bodies s))
            then (heap s r)\<lparr>angle :=
                   facing s (pointer_to_world (camera s) (screen_height s) (mouse_get_pos s)) r\<rparr>
            else heap s r)"
proof -
  let ?pg = "pointer_to_world (camera s) (screen_height s) (mouse_get_pos s)"
  let ?u = "s\<lparr>active_shape := None\<rparr>"
  from assms(2) have "hit_loop pq ?pg (space_bodies s) ?u = Inr s'"
    by (simp add: on_mouse_down_def Let_def)
  note e = hit_loop_effect [OF assms(1) this]
  have fr: "contains pq ?u ?pg = contains pq s ?pg" "first_shape ?u = first_shape s"
    "shape_owner ?u = shape_owner s" "facing ?u ?pg = facing s ?pg"
    by (rule hit_frame [OF assms(1)]; simp)+
  have hu: "heap ?u = heap s" "active_shape ?u = None" "pulling ?u = pulling s"
    by simp_all
  from e show ?thesis unfolding fr hu .
qed

lemma circle_engine_positions:
  "\<forall>t u sh p. (\<forall>r. position (heap t r) = position (heap u r)) \<longrightarrow>
     circle_engine t sh p = circle_engine u sh p"
  by (simp add: circle_engine_def)

lemma two_projectiles_eq:
  "two_projectiles =
     (init [] camera0 (100, 100))
       \<lparr>heap := (heap (init [] camera0 (100, 100)))(2 := Projectile 2 (100, 100) 20),
        next_ref := 3, projectile := 2,
        space_bodies := [1, 2],
        space_shapes := [\<lparr>shape_body = 1, radius = 25\<rparr>, \<lparr>shape_body = 2, radius = 20\<rparr>]\<rparr>"
  by (simp add: two_projectiles_def create_projectile_def entries_def ptw0 Let_def space_add_def
      init_def idle_entry_def of_pixel_def)

lemma two_projectiles_simps:
  "camera two_projectiles = camera0" "screen_height two_projectiles = 600"
  "mouse_get_pos two_projectiles = (100, 100)" "space_bodies two_projectiles = [1, 2]"
  "heap two_projectiles (Suc 0) = Projectile 1 (100, 100) 25"
  "heap two_projectiles 2 = Projectile 2 (100, 100) 20"
  "pulling two_projectiles = False"
  by (simp_all add: two_projectiles_eq init_def)

lemma circle_engine_two:
  "circle_engine two_projectiles \<lparr>shape_body = Suc 0, radius = 25\<rparr> (100, 100) = Some (- 25)"
  "circle_engine two_projectiles \<lparr>shape_body = 2, radius = 20\<rparr> (100, 100) = Some (- 20)"
  by (simp_all add: circle_engine_def two_projectiles_simps Projectile_def vsub_def of_pixel_def)

lemma contains_two:
  "filter (contains circle_engine two_projectiles (100, 100)) [1, 2] = [1, 2]"
  "first_shape two_projectiles (Suc 0) = Some \<lparr>shape_body = 1, radius = 25\<rparr>"
  "first_shape two_projectiles 2 = Some \<lparr>shape_body = 2, radius = 20\<rparr>"
  by (simp_all add: contains_def first_shape_def two_projectiles_simps circle_engine_two
      Projectile_def)

lemma mouse_down_two:
  "on_mouse_down circle_engine two_projectiles =
     Inr (two_projectiles\<lparr>active_shape := Some \<lparr>shape_body = 2, radius = 20\<rparr>,
        pulling := True\<rparr>)"
  by (simp add: on_mouse_down_def ptw0 Let_def two_projectiles_eq init_def Projectile_def
      circle_engine_def vsub_def of_pixel_def vec_angle_def)

text \<open>
  C6 (as amended). When several dynamic bodies contain the queried world point, the hit
  test selects the last such body in the iteration order over the space's bodies
  (last-match-wins: the loop has no \<open>break\<close>, so each later match overwrites the
  selection); the pulling flag is set, and the body of each containing body's shape
  (\<open>shape.body\<close>) is turned to face the pointer, nothing else in the store changing. When no
  dynamic body contains the point, nothing is selected and flag and store stay as they
  are. Containment is the engine's answer for the body's first shape; the statement is for
  an engine whose answers depend on the state only through the positions of the bodies,
  which the hit test does not change.
\<close>

theorem hit_test_last_match_wins:
  assumes "\<forall>t u sh p. (\<forall>r. position (heap t r) = position (heap u r)) \<longrightarrow>
      pq t sh p = pq u sh p"
    and "on_mouse_down pq s = Inr s'"
  shows "active_shape s' =
       (case filter (contains pq s (pointer_to_world (camera s) (screen_height s) (mouse_get_pos s)))
               (space_bodies s) of
          [] \<Rightarrow> None
        | b # ms \<Rightarrow> first_shape s (last (b # ms))) \<and>
     pulling s' =
       (pulling s \<or>
        filter (contains pq s (pointer_to_world (camera s) (screen_height s) (mouse_get_pos s)))
          (space_bodies s) \<noteq> []) \<and>
     heap s' =
       (\<lambda>r. if r \<in> shape_owner s `
                 set (filter (contains pq s
                        (pointer_to_world (camera s) (screen_height s) (mouse_get_pos s)))
                      (space_bodies s))
            then (heap s r)\<lparr>angle :=
                   facing s (pointer_to_world (camera s) (screen_height s) (mouse_get_pos s)) r\<rparr>
            else heap s r)"
  using assms by (rule on_mouse_down_effect)

theorem hit_test_last_match_wins_witness:
  "raised (on_mouse_down circle_engine two_projectiles) = None \<and>
   filter (contains circle_engine two_projectiles
       (pointer_to_world (camera two_projectiles) (screen_height two_projectiles)
          (mouse_get_pos two_projectiles)))
     (space_bodies two_projectiles) = [1, 2] \<and>
   active_shape (final_state (on_mouse_down circle_engine two_projectiles))
     = Some \<lparr>shape_body = 2, radius = 20\<rparr> \<and>
   pulling (final_state (on_mouse_down circle_engine two_projectiles))"
proof -
  let ?f = "filter (contains circle_engine two_projectiles
       (pointer_to_world (camera two_projectiles) (screen_height two_projectiles)
          (mouse_get_pos two_projectiles)))
     (space_bodies two_projectiles)"
  let ?t = "two_projectiles\<lparr>active_shape := Some \<lparr>shape_body = 2, radius = 20\<rparr>,
        pulling := True\<rparr>"
  have f: "?f = [1, 2]"
    by (simp add: two_projectiles_simps ptw0 contains_def first_shape_def circle_engine_two
        Projectile_def)
  note w = hit_test_last_match_wins [OF circle_engine_positions mouse_down_two]
  from w have "active_shape ?t = (case ?f of [] \<Rightarrow> None
      | b # ms \<Rightarrow> first_shape two_projectiles (last (b # ms)))"
    and p: "pulling ?t = (pulling two_projectiles \<or> ?f \<noteq> [])"
    by blast+
  then have "active_shape ?t = first_shape two_projectiles 2"
    unfolding f by simp
  then have a: "active_shape ?t = Some \<lparr>shape_body = 2, radius = 20\<rparr>"
    by (simp add: contains_two)
  from p have "pulling ?t" unfolding f by simp
  with f a show ?thesis
    by (simp add: mouse_down_two raised_def final_state_def)
qed

text \<open>
  C6 as stated fails: with two projectiles on top of each other, both containing the
  pointer, the pointer-down selects the shape of the second body in iteration order, not
  that of the first.
\<close>

theorem hit_test_first_match_counterexample:
  "space_bodies two_projectiles = [1, 2] \<and>
   contains circle_engine two_projectiles (100, 100) 1 \<and>
   contains circle_engine two_projectiles (100, 100) 2 \<and>
   first_shape two_projectiles 1 = Some \<lparr>shape_body = 1, radius = 25\<rparr> \<and>
   active_shape (final_state (on_mouse_down circle_engine two_projectiles))
     = Some \<lparr>shape_body = 2, radius = 20\<rparr> \<and>
   active_shape (final_state (on_mouse_down circle_engine two_projectiles))
     \<noteq> first_shape two_projectiles 1"
  by (simp add: mouse_down_two final_state_def two_projectiles_simps contains_def
      first_shape_def circle_engine_two Projectile_def)

subsection \<open>Removing an obstacle by name\<close>

declare remove_loop.simps [simp del]

lemma remove_loop_no_match:
  "(\<And>j. i \<le> j \<Longrightarrow> j < length (objects s) \<Longrightarrow> name (objects s ! j) \<noteq> n) \<Longrightarrow>
     remove_loop n i s = s"
proof (induction "length (objects s) - i" arbitrary: i)
  case 0
  then show ?case by (subst remove_loop.simps) simp
next
  case (Suc k)
  from Suc.hyps(2) have lt: "i < length (objects s)" by simp
  with Suc.prems have nm: "name (objects s ! i) \<noteq> n" by simp
  have "remove_loop n (Suc i) s = s"
  proof (rule Suc.hyps(1))
    show "k = length (objects s) - Suc i" using Suc.hyps(2) by simp
    show "\<And>j. Suc i \<le> j \<Longrightarrow> j < length (objects s) \<Longrightarrow> name (objects s ! j) \<noteq> n"
      using Suc.prems by simp
  qed
  with nm lt show ?case by (subst remove_loop.simps) (simp add: Let_def)
qed


lemma remove_loop_single:
  assumes "objects s = pre @ ob # post" and "name ob = n"
    and "\<forall>x\<in>set pre. name x \<noteq> n" and "\<forall>x\<in>set post. name x \<noteq> n"
  shows "i \<le> length pre \<Longrightarrow>
     remove_loop n i s =
       (space_remove (ob_shape ob) (ob_body ob) s)\<lparr>objects := pre @ post\<rparr>"
proof (induction "length pre - i" arbitrary: i)
  case 0
  then have i: "i = length pre" by simp
  let ?t = "(space_remove (ob_shape ob) (ob_body ob) s)\<lparr>objects := pre @ post\<rparr>"
  have nth: "objects s ! i = ob" using assms(1) i by simp
  have notin: "ob \<notin> set pre" using assms(2,3) by auto
  then have rem: "remove1 ob (objects s) = pre @ post"
    using assms(1) by (simp add: remove1_append)
  have obj_t: "objects ?t = pre @ post" by (simp add: space_remove_def)
  have stable: "remove_loop n (Suc i) ?t = ?t"
  proof (rule remove_loop_no_match)
    fix j assume j: "Suc i \<le> j" "j < length (objects ?t)"
    then have "objects ?t ! j = post ! (j - length pre)"
      using i by (simp add: obj_t nth_append)
    moreover have "j - length pre < length post" using j i by (simp add: obj_t)
    ultimately have "objects ?t ! j \<in> set post" by simp
    with assms(4) show "name (objects ?t ! j) \<noteq> n" by blast
  qed
  have lt: "i < length (objects s)" using assms(1) i by simp
  have "remove_loop n i s = remove_loop n (Suc i)
      ((space_remove (ob_shape ob) (ob_body ob) s)\<lparr>objects := remove1 ob (objects s)\<rparr>)"
    using lt nth assms(2) by (subst remove_loop.simps) (simp add: Let_def)
  also have "\<dots> = ?t" unfolding rem by (rule stable)
  finally show ?case .
next
  case (Suc k)
  then have lt: "i < length pre" by simp
  then have "objects s ! i = pre ! i" using assms(1) by (simp add: nth_append)
  with lt assms(3) have nm: "name (objects s ! i) \<noteq> n" by simp
  have rec: "remove_loop n (Suc i) s =
      (space_remove (ob_shape ob) (ob_body ob) s)\<lparr>objects := pre @ post\<rparr>"
    using Suc.hyps(1) [of "Suc i"] Suc.hyps(2) lt by simp
  have lt': "i < length (objects s)" using assms(1) lt by simp
  have "remove_loop n i s = remove_loop n (Suc i) s"
    using lt' nm by (subst remove_loop.simps) (simp add: Let_def)
  with rec show ?case by simp
qed

lemma filled_simps:
  "ready_to_step filled = False" "during_query filled = False"
  "list_ex (\<lambda>e. entry_get e = []) (entries filled) = False"
  "entry_get (entry_name filled) = ''A''"
  "entry_get_int (entry_multiplier filled) = Some 10"
  "entry_get_int (entry_pos_x filled) = Some 50"
  "entry_get_int (entry_pos_y filled) = Some 50"
  "selected_object filled = ''Circle''" "next_ref filled = 2" "objects filled = []"
  "space_bodies filled = [1]" "space_shapes filled = [\<lparr>shape_body = 1, radius = 25\<rparr>]"
  by (simp_all add: filled_def init_def entries_def entry_get_def entry_get_int_def
      is_digit_def idle_entry_def)

lemma create_filled:
  "create ''Circle'' filled =
     Inr (filled\<lparr>heap := (heap filled)(2 :=
             \<lparr>body_type = STATIC, position = (50, 50), angle = 0,
              shapes = [\<lparr>shape_body = 2, radius = 10\<rparr>], impulses = []\<rparr>),
           next_ref := 3, objects := [obstacle_A],
           show_info := False, label_info := [],
           space_bodies := [1, 2],
           space_shapes := [\<lparr>shape_body = 1, radius = 25\<rparr>, \<lparr>shape_body = 2, radius = 10\<rparr>]\<rparr>)"
  by (simp add: create_def filled_simps StaticObstacle_def space_add_def obstacle_A_def
      of_pixel_def Let_def)

lemma created_simps:
  "ready_to_step (final_state (create ''Circle'' filled)) = False"
  "during_query (final_state (create ''Circle'' filled)) = False"
  "entry_get (entry_name (final_state (create ''Circle'' filled))) = ''A''"
  "objects (final_state (create ''Circle'' filled)) = [obstacle_A]"
  "space_bodies (final_state (create ''Circle'' filled)) = [1, 2]"
  "space_shapes (final_state (create ''Circle'' filled))
     = [\<lparr>shape_body = 1, radius = 25\<rparr>, \<lparr>shape_body = 2, radius = 10\<rparr>]"
  by (simp_all add: create_filled final_state_def filled_simps)

lemma remove_created:
  "remove (final_state (create ''Circle'' filled)) =
     (final_state (create ''Circle'' filled))
       \<lparr>show_info := False, label_info := [],
        space_shapes := [\<lparr>shape_body = 1, radius = 25\<rparr>], space_bodies := [1], objects := []\<rparr>"
proof -
  let ?s = "final_state (create ''Circle'' filled)"
  let ?t = "?s\<lparr>show_info := False, label_info := []\<rparr>"
  have a: "remove ?s = remove_loop ''A'' 0 ?t"
    by (simp add: remove_def created_simps)
  have b: "remove_loop ''A'' 0 ?t =
      (space_remove (ob_shape obstacle_A) (ob_body obstacle_A) ?t)\<lparr>objects := [] @ []\<rparr>"
    by (rule remove_loop_single [where pre = "[]"]) (simp_all add: created_simps obstacle_A_def)
  have c: "(space_remove (ob_shape obstacle_A) (ob_body obstacle_A) ?t)\<lparr>objects := [] @ []\<rparr>
      = ?s\<lparr>show_info := False, label_info := [],
        space_shapes := [\<lparr>shape_body = 1, radius = 25\<rparr>], space_bodies := [1], objects := []\<rparr>"
    by (simp add: space_remove_def created_simps obstacle_A_def)
  show ?thesis by (rule trans [OF a]) (rule trans [OF b c])
qed

lemma remove_again:
  "remove (remove (final_state (create ''Circle'' filled))) =
     remove (final_state (create ''Circle'' filled))"
proof -
  let ?s = "remove (final_state (create ''Circle'' filled))"
  let ?t = "?s\<lparr>show_info := False, label_info := []\<rparr>"
  have g: "\<not> ready_to_step ?s" "\<not> during_query ?s" "entry_get (entry_name ?s) = ''A''"
    "objects ?s = []"
    unfolding remove_created by (simp_all add: created_simps)
  have a: "remove ?s = remove_loop ''A'' 0 ?t"
    using g by (subst remove_def) simp
  have b: "remove_loop ''A'' 0 ?t = ?t"
    by (rule remove_loop_no_match) (simp add: g)
  have c: "?t = ?s" unfolding remove_created by simp
  show ?thesis by (rule trans [OF a]) (rule trans [OF b c])
qed

text \<open>
  C8 (as amended). With both guards clear and a name in the name field, \<open>__remove\<close>
  reports nothing when no tracked object has that name: it clears the info message and
  leaves the tracked list and the space as they are (so removing a name that was already
  removed is a silent no-op, not a not-found error). When exactly one tracked object has
  the name, it takes that object's shape and body out of the space and drops the object
  from the tracked list.
\<close>

theorem remove_by_name:
  assumes "\<not> ready_to_step s" and "\<not> during_query s" and "entry_get (entry_name s) \<noteq> []"
  shows "((\<forall>x\<in>set (objects s). name x \<noteq> entry_get (entry_name s)) \<longrightarrow>
            remove s = s\<lparr>show_info := False, label_info := []\<rparr>) \<and>
         (\<forall>pre ob post.
            objects s = pre @ ob # post \<and> name ob = entry_get (entry_name s) \<and>
            (\<forall>x\<in>set (pre @ post). name x \<noteq> entry_get (entry_name s)) \<longrightarrow>
            remove s =
              s\<lparr>show_info := False, label_info := [],
                space_shapes := remove1 (ob_shape ob) (space_shapes s),
                space_bodies := remove1 (ob_body ob) (space_bodies s),
                objects := pre @ post\<rparr>)"
proof (intro conjI allI impI)
  let ?n = "entry_get (entry_name s)"
  let ?t = "s\<lparr>show_info := False, label_info := []\<rparr>"
  have rm: "remove s = remove_loop ?n 0 ?t"
    using assms by (simp add: remove_def)
  {
    assume "\<forall>x\<in>set (objects s). name x \<noteq> ?n"
    then have "remove_loop ?n 0 ?t = ?t"
      by (intro remove_loop_no_match) simp
    with rm show "remove s = ?t" by simp
  next
    fix pre ob post
    assume a: "objects s = pre @ ob # post \<and> name ob = ?n \<and>
            (\<forall>x\<in>set (pre @ post). name x \<noteq> ?n)"
    have "remove_loop ?n 0 ?t =
        (space_remove (ob_shape ob) (ob_body ob) ?t)\<lparr>objects := pre @ post\<rparr>"
    proof (rule remove_loop_single)
      show "objects ?t = pre @ ob # post" using a by simp
      show "name ob = ?n" using a by simp
      show "\<forall>x\<in>set pre. name x \<noteq> ?n" using a by simp
      show "\<forall>x\<in>set post. name x \<noteq> ?n" using a by simp
      show "0 \<le> length pre" by simp
    qed
    with rm show "remove s =
              s\<lparr>show_info := False, label_info := [],
                space_shapes := remove1 (ob_shape ob) (space_shapes s),
                space_bodies := remove1 (ob_body ob) (space_bodies s),
                objects := pre @ post\<rparr>"
      by (simp add: space_remove_def)
  }
qed

theorem remove_by_name_witness:
  "\<not> ready_to_step (final_state (create ''Circle'' filled)) \<and>
   \<not> during_query (final_state (create ''Circle'' filled)) \<and>
   entry_get (entry_name (final_state (create ''Circle'' filled))) \<noteq> [] \<and>
   objects (final_state (create ''Circle'' filled)) = [] @ obstacle_A # [] \<and>
   objects (remove (final_state (create ''Circle'' filled))) = [] \<and>
   space_bodies (remove (final_state (create ''Circle'' filled))) = [1] \<and>
   objects filled = [] \<and>
   remove filled = filled\<lparr>show_info := False, label_info := []\<rparr>"
proof -
  let ?s = "final_state (create ''Circle'' filled)"
  have h: "\<not> ready_to_step ?s" "\<not> during_query ?s" "entry_get (entry_name ?s) \<noteq> []"
    by (simp_all add: created_simps)
  have m: "objects ?s = [] @ obstacle_A # [] \<and> name obstacle_A = entry_get (entry_name ?s) \<and>
      (\<forall>x\<in>set ([] @ []). name x \<noteq> entry_get (entry_name ?s))"
    by (simp add: created_simps obstacle_A_def)
  from remove_by_name [OF h] m
  have r: "remove ?s = ?s\<lparr>show_info := False, label_info := [],
      space_shapes := remove1 (ob_shape obstacle_A) (space_shapes ?s),
      space_bodies := remove1 (ob_body obstacle_A) (space_bodies ?s),
      objects := [] @ []\<rparr>"
    by blast
  have g: "\<not> ready_to_step filled" "\<not> during_query filled" "entry_get (entry_name filled) \<noteq> []"
    by (simp_all add: filled_simps)
  have n: "\<forall>x\<in>set (objects filled). name x \<noteq> entry_get (entry_name filled)"
    by (simp add: filled_simps)
  from remove_by_name [OF g] n
  have r2: "remove filled = filled\<lparr>show_info := False, label_info := []\<rparr>" by blast
  show ?thesis using h m r2
    by (simp add: r created_simps obstacle_A_def filled_simps)
qed

text \<open>
  C8 as stated fails: create the circle \<open>A\<close>, remove \<open>A\<close>, remove \<open>A\<close> again. The second
  removal finds no object of that name, and reports nothing: the info label stays hidden
  and empty, and the state is the one the first removal left.
\<close>

theorem remove_missing_name_counterexample:
  "raised (create ''Circle'' filled) = None \<and>
   objects (final_state (create ''Circle'' filled)) = [obstacle_A] \<and>
   name obstacle_A = entry_get (entry_name (final_state (create ''Circle'' filled))) \<and>
   objects (remove (final_state (create ''Circle'' filled))) = [] \<and>
   \<not> show_info (remove (remove (final_state (create ''Circle'' filled)))) \<and>
   label_info (remove (remove (final_state (create ''Circle'' filled)))) = [] \<and>
   remove (remove (final_state (create ''Circle'' filled)))
     = remove (final_state (create ''Circle'' filled))"
proof -
  have "raised (create ''Circle'' filled) = None"
    by (simp add: create_filled raised_def)
  moreover have "objects (final_state (create ''Circle'' filled)) = [obstacle_A]"
    "name obstacle_A = entry_get (entry_name (final_state (create ''Circle'' filled)))"
    by (simp_all add: created_simps obstacle_A_def)
  moreover have "objects (remove (final_state (create ''Circle'' filled))) = []"
    "\<not> show_info (remove (final_state (create ''Circle'' filled)))"
    "label_info (remove (final_state (create ''Circle'' filled))) = []"
    unfolding remove_created by simp_all
  ultimately show ?thesis unfolding remove_again by blast
qed

subsection \<open>Typing into an entry\<close>

lemma ptw_panned: "pointer_to_world camera_panned h (450, 190) = (100, 100)"
  using py_round_of_int [of 100]
  by (simp add: pointer_to_world_def camera_panned_def from_pygame_def to_pygame_def
      positive_y_is_up_def vsub_def of_pixel_def)

lemma handle_entries_fields:
  "active_shape (handle_entries ent ev s) = active_shape s"
  "pulling (handle_entries ent ev s) = pulling s"
  "running (handle_entries ent ev s) = running s"
  "heap (handle_entries ent ev s) = heap s"
  "space_bodies (handle_entries ent ev s) = space_bodies s"
  "camera (handle_entries ent ev s) = camera s"
  "screen_height (handle_entries ent ev s) = screen_height s"
  "mouse_get_pos (handle_entries ent ev s) = mouse_get_pos s"
  by (simp_all add: handle_entries_def)

lemma click_on_name_entry:
  "status (entry_name (handle_entries click_focus (MOUSEBUTTONDOWN (450, 190))
      (init [] camera_panned (450, 190))))"
  by (simp add: handle_entries_def click_focus_def inside_def init_def idle_entry_def)

lemma mouse_down_under_entry:
  "handle_event click_focus circle_engine (MOUSEBUTTONDOWN (450, 190))
      (init [] camera_panned (450, 190)) =
     Inr ((handle_entries click_focus (MOUSEBUTTONDOWN (450, 190))
            (init [] camera_panned (450, 190)))
        \<lparr>active_shape := Some \<lparr>shape_body = 1, radius = 25\<rparr>, pulling := True\<rparr>)"
  by (simp add: handle_event_def on_mouse_down_def ptw_panned Let_def
      handle_entries_def init_def Projectile_def circle_engine_def vsub_def
      of_pixel_def vec_angle_def)

text \<open>
  C9 (as amended). While a text entry reports busy, the camera controller consumes no
  movement input: the camera update leaves the state as it is. Pointer input is not gated
  on the entries: a pointer-down on a dynamic body, handled while an entry reports busy
  (after the entries have seen the event), selects a body and starts a drag all the same.
  The pointer part is for every entry widget and every engine whose answers depend on the
  state only through the positions of the bodies.
\<close>

theorem busy_entry_gates_camera_only:
  assumes "list_ex status (entries t)"
    and "list_ex status (entries (handle_entries ent (MOUSEBUTTONDOWN pos) s))"
    and "\<forall>t u sh p. (\<forall>r. position (heap t r) = position (heap u r)) \<longrightarrow>
      pq t sh p = pq u sh p"
    and "b \<in> set (space_bodies s)"
    and "contains pq s (pointer_to_world (camera s) (screen_height s) (mouse_get_pos s)) b"
    and "handle_event ent pq (MOUSEBUTTONDOWN pos) s = Inr s'"
  shows "handle_camera_movement upd t = t \<and> active_shape s' \<noteq> None \<and> pulling s'"
proof -
  let ?u = "handle_entries ent (MOUSEBUTTONDOWN pos) s"
  let ?pg = "pointer_to_world (camera s) (screen_height s) (mouse_get_pos s)"
  let ?f = "filter (contains pq s ?pg) (space_bodies s)"
  have cam: "handle_camera_movement upd t = t"
    using assms(1) by (simp add: handle_camera_movement_def)
  from assms(6) have r: "on_mouse_down pq ?u = Inr s'"
    by (simp add: handle_event_def)
  have fr: "contains pq ?u ?pg = contains pq s ?pg" "first_shape ?u = first_shape s"
    "shape_owner ?u = shape_owner s" "facing ?u ?pg = facing s ?pg"
    by (rule hit_frame [OF assms(3)]; simp add: handle_entries_fields)+
  from on_mouse_down_effect [OF assms(3) r]
  have a: "active_shape s' = (case ?f of [] \<Rightarrow> None | b # ms \<Rightarrow> first_shape s (last (b # ms)))"
    and p: "pulling s' = (pulling s \<or> ?f \<noteq> [])"
    unfolding handle_entries_fields fr by blast+
  from assms(4,5) have ne: "?f \<noteq> []" by (auto simp: filter_empty_conv)
  then have "last ?f \<in> set ?f" by (rule last_in_set)
  then have "contains pq s ?pg (last ?f)" by simp
  then have "first_shape s (last ?f) \<noteq> None"
    by (auto simp: contains_def split: option.splits)
  with a ne have "active_shape s' \<noteq> None" by (cases ?f) auto
  with cam p ne show ?thesis by simp
qed

theorem busy_entry_gates_camera_only_witness:
  "list_ex status (entries (handle_entries click_focus (MOUSEBUTTONDOWN (450, 190))
      (init [] camera_panned (450, 190)))) \<and>
   1 \<in> set (space_bodies (init [] camera_panned (450, 190))) \<and>
   contains circle_engine (init [] camera_panned (450, 190))
     (pointer_to_world (camera (init [] camera_panned (450, 190)))
        (screen_height (init [] camera_panned (450, 190)))
        (mouse_get_pos (init [] camera_panned (450, 190)))) 1 \<and>
   raised (handle_event click_focus circle_engine (MOUSEBUTTONDOWN (450, 190))
      (init [] camera_panned (450, 190))) = None \<and>
   handle_camera_movement (\<lambda>c. c\<lparr>x_offset := x_offset c + 5\<rparr>)
      (handle_entries click_focus (MOUSEBUTTONDOWN (450, 190)) (init [] camera_panned (450, 190)))
     = handle_entries click_focus (MOUSEBUTTONDOWN (450, 190)) (init [] camera_panned (450, 190)) \<and>
   active_shape (final_state (handle_event click_focus circle_engine (MOUSEBUTTONDOWN (450, 190))
      (init [] camera_panned (450, 190)))) \<noteq> None \<and>
   pulling (final_state (handle_event click_focus circle_engine (MOUSEBUTTONDOWN (450, 190))
      (init [] camera_panned (450, 190))))"
proof -
  let ?a = "init [] camera_panned (450, 190)"
  let ?u = "handle_entries click_focus (MOUSEBUTTONDOWN (450, 190)) ?a"
  have busy: "list_ex status (entries ?u)"
    using click_on_name_entry by (simp add: entries_def)
  have b: "1 \<in> set (space_bodies ?a)" by (simp add: init_def)
  have c: "contains circle_engine ?a
      (pointer_to_world (camera ?a) (screen_height ?a) (mouse_get_pos ?a)) 1"
    by (simp add: init_def ptw_panned contains_def first_shape_def Projectile_def
        circle_engine_def vsub_def of_pixel_def)
  note r = mouse_down_under_entry
  note w = busy_entry_gates_camera_only [OF busy busy circle_engine_positions b c r]
  have f: "final_state (Inr x) = x" "raised (Inr x) = None" for x :: sim
    by (simp_all add: final_state_def raised_def)
  from w busy b c show ?thesis unfolding r f by blast
qed

text \<open>
  C9 as stated fails: with the camera panned so that the projectile lies under the name
  entry, a pointer-down there gives the entry the focus, and the hit test that follows in
  the same turn of the loop selects the projectile and starts a drag while the entry
  reports busy.
\<close>

theorem busy_entry_pointer_down_counterexample:
  "list_ex status (entries (handle_entries click_focus (MOUSEBUTTONDOWN (450, 190))
      (init [] camera_panned (450, 190)))) \<and>
   raised (handle_event click_focus circle_engine (MOUSEBUTTONDOWN (450, 190))
      (init [] camera_panned (450, 190))) = None \<and>
   active_shape (init [] camera_panned (450, 190)) = None \<and>
   active_shape (final_state (handle_event click_focus circle_engine (MOUSEBUTTONDOWN (450, 190))
      (init [] camera_panned (450, 190)))) = Some \<lparr>shape_body = 1, radius = 25\<rparr> \<and>
   pulling (final_state (handle_event click_focus circle_engine (MOUSEBUTTONDOWN (450, 190))
      (init [] camera_panned (450, 190))))"
  using click_on_name_entry
  by (simp add: mouse_down_under_entry raised_def final_state_def entries_def)
     (simp add: init_def)

subsection \<open>Deleting the selection in the middle of a drag\<close>

lemma mouse_down_entries:
  "on_mouse_down circle_engine (handle_entries ent ev (init [] camera0 (100, 100))) =
     Inr ((handle_entries ent ev (init [] camera0 (100, 100)))
        \<lparr>active_shape := Some \<lparr>shape_body = 1, radius = 25\<rparr>, pulling := True\<rparr>)"
  by (simp add: on_mouse_down_def ptw0 Let_def handle_entries_def init_def Projectile_def
      circle_engine_def vsub_def of_pixel_def vec_angle_def)

lemma on_backspace_fields:
  "active_shape (on_backspace s) = None"
  "pulling (on_backspace s) = pulling s"
  "running (on_backspace s) = running s"
  by (simp_all add: on_backspace_def space_remove_def split: option.splits)

text \<open>
  C10: in every reachable state, a pointer-up handled with the pulling flag set finds a
  selected shape, also when Backspace comes between pointer-down and pointer-up. The
  Backspace branch clears the selection and leaves the pulling flag set: from the initial
  scene, pointer-down on the projectile followed by Backspace reaches a state with
  \<open>pulling\<close> set and no active shape, and the pointer-up that follows raises
  \<open>AttributeError\<close> on \<open>self.__active_shape.body\<close>, whatever the entries do with the
  events.
\<close>

theorem delete_during_drag_crashes:
  "raised (handle_events ent circle_engine
      [MOUSEBUTTONDOWN (100, 100), KEYDOWN K_BACKSPACE, MOUSEBUTTONUP (100, 100)]
      (init [] camera0 (100, 100))) = Some AttributeError \<and>
   raised (handle_events ent circle_engine [MOUSEBUTTONDOWN (100, 100), KEYDOWN K_BACKSPACE]
      (init [] camera0 (100, 100))) = None \<and>
   pulling (final_state (handle_events ent circle_engine [MOUSEBUTTONDOWN (100, 100), KEYDOWN K_BACKSPACE]
      (init [] camera0 (100, 100)))) \<and>
   active_shape (final_state (handle_events ent circle_engine
      [MOUSEBUTTONDOWN (100, 100), KEYDOWN K_BACKSPACE] (init [] camera0 (100, 100)))) = None"
proof -
  let ?a = "init [] camera0 (100, 100)"
  let ?b = "(handle_entries ent (MOUSEBUTTONDOWN (100, 100)) ?a)
        \<lparr>active_shape := Some \<lparr>shape_body = 1, radius = 25\<rparr>, pulling := True\<rparr>"
  let ?c = "on_backspace (handle_entries ent (KEYDOWN K_BACKSPACE) ?b)"
  let ?d = "(handle_entries ent (MOUSEBUTTONUP (100, 100)) ?c)\<lparr>pulling := False\<rparr>"
  have run_a: "running ?a" by (simp add: init_def)
  have 1: "handle_event ent circle_engine (MOUSEBUTTONDOWN (100, 100)) ?a = Inr ?b"
    by (simp add: handle_event_def mouse_down_entries)
  have b: "running ?b" "pulling ?b" "active_shape ?b \<noteq> None"
    using run_a by (simp_all add: handle_entries_fields)
  have 2: "handle_event ent circle_engine (KEYDOWN K_BACKSPACE) ?b = Inr ?c"
    using b(3) by (simp add: handle_event_def handle_entries_fields)
  have c: "running ?c" "pulling ?c" "active_shape ?c = None"
    using b by (simp_all add: on_backspace_fields handle_entries_fields)
  have 3: "handle_event ent circle_engine (MOUSEBUTTONUP (100, 100)) ?c
      = Inl (AttributeError, ?d)"
    using c by (simp add: handle_event_def on_mouse_up_def handle_entries_fields Let_def)
  have two: "handle_events ent circle_engine [MOUSEBUTTONDOWN (100, 100), KEYDOWN K_BACKSPACE] ?a = Inr ?c"
    using 1 2 b(1) c(1) by simp
  have three: "handle_events ent circle_engine
      [MOUSEBUTTONDOWN (100, 100), KEYDOWN K_BACKSPACE, MOUSEBUTTONUP (100, 100)] ?a
      = Inl (AttributeError, ?d)"
    using 1 2 3 b(1) c(1) by simp
  show ?thesis
    unfolding two three using c by (simp add: raised_def final_state_def)
qed

end
